theory Spec2Isabelle
  imports Main "HOL-Library.Word"
begin

unbundle bit_operations_syntax

section \<open>The consume tool of rabbitmq-c (tools/consume.c)\<close>

text \<open>
  The tool connects to a broker, sets a queue up, and pipes the body of every delivery
  into a command, acknowledging the delivery when the command succeeds. The embedding
  follows \<^verbatim>\<open>tools/consume.c\<close> function by function: \<^verbatim>\<open>stringify_bytes\<close>,
  \<^verbatim>\<open>setup_queue\<close>, \<^verbatim>\<open>do_consume\<close> and \<^verbatim>\<open>main\<close>.
\<close>

subsection \<open>Bytes and C strings\<close>

text \<open>
  \<^verbatim>\<open>uint8_t\<close> and \<^verbatim>\<open>char\<close> are 8-bit words. An \<^verbatim>\<open>amqp_bytes_t\<close> (a length and a
  pointer) is the list of its bytes. A \<^verbatim>\<open>char *\<close> argument that may be \<^verbatim>\<open>NULL\<close> is an
  optional list of the characters before the terminating NUL.
\<close>

type_synonym uint8_t = "8 word"
type_synonym c_char = "8 word"
type_synonym amqp_bytes_t = "uint8_t list"
type_synonym c_string = "c_char list"

text \<open>The characters a C string holds: everything before the first NUL of its buffer.\<close>

definition c_str :: "c_char list \<Rightarrow> c_string" where
  "c_str buf = takeWhile (\<lambda>c. c \<noteq> 0) buf"

subsection \<open>\<^verbatim>\<open>stringify_bytes\<close>\<close>

text \<open>
  The function allocates \<^verbatim>\<open>bytes.len * 4 + 1\<close> characters and writes through the moving
  pointer \<^verbatim>\<open>p\<close>. The model keeps the allocated block \<open>res\<close> and the offset of \<^verbatim>\<open>p\<close> from
  its start; a write at an offset outside the block has no defined result in C and is
  \<open>None\<close> here. The block comes from \<^verbatim>\<open>malloc\<close> with arbitrary contents: \<open>junk\<close> gives
  the character found at each offset before anything is written. Lengths are natural
  numbers: the model assumes that \<^verbatim>\<open>bytes.len * 4 + 1\<close> does not wrap around in
  \<^verbatim>\<open>size_t\<close> and that the allocation succeeds.
\<close>

record writer =
  res :: "c_char list"
  p :: nat

text \<open>\<^verbatim>\<open>*p++ = c\<close>\<close>

definition store_inc :: "c_char \<Rightarrow> writer \<Rightarrow> writer option" where
  "store_inc c w =
     (if p w < length (res w) then Some \<lparr>res = (res w)[p w := c], p = p w + 1\<rparr> else None)"

text \<open>\<^verbatim>\<open>*p = c\<close>\<close>

definition store :: "c_char \<Rightarrow> writer \<Rightarrow> writer option" where
  "store c w =
     (if p w < length (res w) then Some \<lparr>res = (res w)[p w := c], p = p w\<rparr> else None)"

text \<open>
  The body of the \<^verbatim>\<open>for\<close> loop for the byte \<^verbatim>\<open>data[i]\<close>. In C the byte is promoted to
  \<^verbatim>\<open>int\<close> before it is shifted, masked and added to \<^verbatim>\<open>'0'\<close> (48); every intermediate
  value is below 256, so the same operations on 8-bit words give the same characters.
  \<^verbatim>\<open>data[i] >> 3 & 0x7\<close> parses as \<^verbatim>\<open>(data[i] >> 3) & 0x7\<close>.
\<close>

definition stringify_byte :: "uint8_t \<Rightarrow> writer \<Rightarrow> writer option" where
  "stringify_byte d w =
     (if 32 \<le> d \<and> d \<noteq> 127 then store_inc d w
      else Option.bind (store_inc 0x5C w) (\<lambda>w.
           Option.bind (store_inc (0x30 + drop_bit 6 d) w) (\<lambda>w.
           Option.bind (store_inc (0x30 + (drop_bit 3 d AND 0x7)) w) (\<lambda>w.
           store_inc (0x30 + (d AND 0x7)) w))))"

text \<open>The loop \<^verbatim>\<open>for (i = 0; i < bytes.len; i++)\<close> over the bytes still to be read.\<close>

fun stringify_loop :: "amqp_bytes_t \<Rightarrow> writer \<Rightarrow> writer option" where
  "stringify_loop [] w = Some w"
| "stringify_loop (d # ds) w = Option.bind (stringify_byte d w) (stringify_loop ds)"

definition malloc :: "(nat \<Rightarrow> c_char) \<Rightarrow> nat \<Rightarrow> c_char list" where
  "malloc junk n = map junk [0..<n]"

definition stringify_run :: "(nat \<Rightarrow> c_char) \<Rightarrow> amqp_bytes_t \<Rightarrow> writer option" where
  "stringify_run junk bytes =
     Option.bind (stringify_loop bytes \<lparr>res = malloc junk (length bytes * 4 + 1), p = 0\<rparr>)
       (store 0)"

text \<open>The function returns the block \<^verbatim>\<open>res\<close>.\<close>

definition stringify_bytes :: "(nat \<Rightarrow> c_char) \<Rightarrow> amqp_bytes_t \<Rightarrow> c_char list option" where
  "stringify_bytes junk bytes = map_option res (stringify_run junk bytes)"

text \<open>
  The characters one byte contributes, as a list: the byte itself, or a backslash and
  three digits. The lemmas below show that this is what the loop body writes.
\<close>

definition is_literal :: "uint8_t \<Rightarrow> bool" where
  "is_literal d \<longleftrightarrow> 32 \<le> d \<and> d \<noteq> 127"

definition escaped :: "uint8_t \<Rightarrow> c_char list" where
  "escaped d =
     (if is_literal d then [d]
      else [0x5C, 0x30 + drop_bit 6 d, 0x30 + (drop_bit 3 d AND 0x7), 0x30 + (d AND 0x7)])"

text \<open>What a writer holds after \<open>cs\<close> has been written at its pointer.\<close>

definition written :: "c_char list \<Rightarrow> writer \<Rightarrow> writer" where
  "written cs w =
     \<lparr>res = take (p w) (res w) @ cs @ drop (p w + length cs) (res w), p = p w + length cs\<rparr>"

text \<open>The characters of a whole byte sequence, in order.\<close>

definition escaped_all :: "amqp_bytes_t \<Rightarrow> c_char list" where
  "escaped_all bs = concat (map escaped bs)"

subsection \<open>Reading the escapes back\<close>

text \<open>
  The tool has no decoder. The specification speaks of reversing the escaping by an
  octal-escape decode; \<open>octal_decode\<close> follows those words: a backslash followed by
  three octal digits stands for the byte with that octal value (taken modulo 256), and
  every other character stands for itself.
\<close>

definition is_octal_digit :: "c_char \<Rightarrow> bool" where
  "is_octal_digit c \<longleftrightarrow> 0x30 \<le> c \<and> c \<le> 0x37"

fun octal_decode :: "c_char list \<Rightarrow> uint8_t list" where
  "octal_decode (c # d2 # d1 # d0 # cs) =
     (if c = 0x5C \<and> is_octal_digit d2 \<and> is_octal_digit d1 \<and> is_octal_digit d0
      then (64 * (d2 - 0x30) + 8 * (d1 - 0x30) + (d0 - 0x30)) # octal_decode cs
      else c # octal_decode (d2 # d1 # d0 # cs))"
| "octal_decode (c # cs) = c # octal_decode cs"
| "octal_decode [] = []"

text \<open>
  A byte sequence is unambiguous when none of its backslash bytes is followed by three
  bytes that are octal digits.
\<close>

fun three_octal_digits :: "c_char list \<Rightarrow> bool" where
  "three_octal_digits (d2 # d1 # d0 # cs) \<longleftrightarrow>
     is_octal_digit d2 \<and> is_octal_digit d1 \<and> is_octal_digit d0"
| "three_octal_digits [] \<longleftrightarrow> False"
| "three_octal_digits [d2] \<longleftrightarrow> False"
| "three_octal_digits [d2, d1] \<longleftrightarrow> False"

fun unambiguous :: "amqp_bytes_t \<Rightarrow> bool" where
  "unambiguous [] \<longleftrightarrow> True"
| "unambiguous (b # bs) \<longleftrightarrow> (b = 0x5C \<longrightarrow> \<not> three_octal_digits bs) \<and> unambiguous bs"

subsection \<open>Runs: the calls a process makes and how it ends\<close>

text \<open>
  Everything the tool does to the outside world is a call into librabbitmq, into the
  helpers of \<^verbatim>\<open>common.c\<close> and \<^verbatim>\<open>process.c\<close>, or a write to \<^verbatim>\<open>stderr\<close>. A run is the
  list of these calls in the order they are made, together with the way the code ends:
  it returns a value, the process exits with a status, it blocks for ever in
  \<^verbatim>\<open>amqp_simple_wait_frame\<close> because the broker sends nothing more, or it writes outside
  an allocated block. The arguments of the events are those of the C calls, in the order
  of the AMQP methods: \<open>QueueDeclare\<close> has channel, queue, passive, durable, exclusive,
  auto-delete; \<open>QueueBind\<close> has channel, queue, exchange, routing key; \<open>BasicQos\<close> has
  channel, prefetch size, prefetch count, global; \<open>BasicConsume\<close> has channel, queue,
  consumer tag, no-local, no-ack, exclusive; \<open>BasicAck\<close> has channel, delivery tag,
  multiple. The connection handle and the empty argument tables are left out.
\<close>

type_synonym amqp_boolean_t = int
type_synonym amqp_channel_t = "16 word"

datatype event =
    MakeConnection
  | Fprintf_stderr string "c_string list"
  | PoptPrintUsage
  | QueueDeclare amqp_channel_t amqp_bytes_t amqp_boolean_t amqp_boolean_t amqp_boolean_t
      amqp_boolean_t
  | QueueBind amqp_channel_t amqp_bytes_t amqp_bytes_t amqp_bytes_t
  | BasicQos amqp_channel_t "32 word" "16 word" amqp_boolean_t
  | BasicConsume amqp_channel_t amqp_bytes_t amqp_bytes_t amqp_boolean_t amqp_boolean_t
      amqp_boolean_t
  | SimpleWaitFrame
  | Pipeline "c_string list"
  | CopyBody amqp_bytes_t
  | FinishPipeline
  | BasicAck amqp_channel_t "64 word" amqp_boolean_t
  | MaybeReleaseBuffers
  | CloseConnection
  | Die string

datatype 'a outcome = Returns 'a | Exits int | Blocks | Faults

type_synonym 'a run = "event list \<times> 'a outcome"

text \<open>Sequencing: the second part runs only when the first one returns.\<close>

definition bind_run :: "'a run \<Rightarrow> ('a \<Rightarrow> 'b run) \<Rightarrow> 'b run" where
  "bind_run m f =
     (case m of
        (es, Returns a) \<Rightarrow> (case f a of (es', r) \<Rightarrow> (es @ es', r))
      | (es, Exits n) \<Rightarrow> (es, Exits n)
      | (es, Blocks) \<Rightarrow> (es, Blocks)
      | (es, Faults) \<Rightarrow> (es, Faults))"

definition skip :: "unit run" where
  "skip = ([], Returns ())"

subsection \<open>What the broker and the pipelines do\<close>

text \<open>
  The frame that \<^verbatim>\<open>amqp_simple_wait_frame\<close> fills in. The loop reads three fields of it:
  \<^verbatim>\<open>frame.frame_type\<close>, \<^verbatim>\<open>frame.payload.method.id\<close> and, through the decoded method,
  \<^verbatim>\<open>deliver->delivery_tag\<close>. The last two are read only after the tests that make them
  meaningful.
\<close>

record amqp_frame_t =
  frame_type :: "8 word"
  method_id :: "32 word"
  delivery_tag :: "64 word"

text \<open>
  Modelled from the spec: the header \<^verbatim>\<open>amqp_framing.h\<close> that defines \<^verbatim>\<open>AMQP_FRAME_METHOD\<close>
  is not among the sources; the specification calls it the type of a method frame. The
  value is the one of the AMQP protocol. The general theorems below do not depend on it;
  only the sample runs evaluate it.
\<close>

definition AMQP_FRAME_METHOD :: "8 word" where
  "AMQP_FRAME_METHOD = 1"

text \<open>
  Modelled from the spec: \<^verbatim>\<open>AMQP_BASIC_DELIVER_METHOD\<close>, from the same missing header, is
  the method id of a delivery notification (class 60, method 60 of the protocol). The
  general theorems below do not depend on the value; only the sample runs evaluate it.
\<close>

definition AMQP_BASIC_DELIVER_METHOD :: "32 word" where
  "AMQP_BASIC_DELIVER_METHOD = 0x003C003C"

text \<open>
  One return of \<^verbatim>\<open>amqp_simple_wait_frame\<close> to the dispatch loop, with what the outside
  world does while the loop handles it: the status and the frame of the wait, whether
  the pipeline can be spawned, the body of the message and whether it can be copied, the
  exit status of every stage of the pipeline, and the status of the acknowledgment.
\<close>

record arrival =
  wait_res :: int
  frame :: amqp_frame_t
  spawn_ok :: bool
  body :: amqp_bytes_t
  body_ok :: bool
  stage_status :: "int list"
  ack_res :: int

text \<open>
  The broker as the tool meets it: whether the connection can be made, the replies to
  the four requests of the setup (\<open>declare_reply\<close> is the queue name in the reply,
  \<open>None\<close> for a \<^verbatim>\<open>NULL\<close> result), the contents of freshly allocated memory, and the
  arrivals, in order. When the arrivals are used up the broker stays silent.
\<close>

record broker =
  connect_ok :: bool
  declare_reply :: "amqp_bytes_t option"
  bind_ok :: bool
  qos_ok :: bool
  consume_ok :: bool
  malloc_junk :: "nat \<Rightarrow> c_char"
  arrivals :: "arrival list"

text \<open>
  Modelled from the spec: \<^verbatim>\<open>die_rpc\<close> (\<^verbatim>\<open>common.c\<close>, not among the sources). The tool
  calls it after a request that got no successful reply; the process reports the
  failing operation and terminates with a non-zero status.
\<close>

definition die_rpc :: "string \<Rightarrow> 'a run" where
  "die_rpc ctx = ([Die ctx], Exits 1)"

text \<open>
  Modelled from the spec: \<^verbatim>\<open>die_amqp_error\<close> (\<^verbatim>\<open>common.c\<close>, not among the sources). A
  protocol-level failure is reported and fatal; librabbitmq reports such a failure as a
  negative status, and any other status lets the run go on.
\<close>

definition die_amqp_error :: "int \<Rightarrow> string \<Rightarrow> unit run" where
  "die_amqp_error err ctx = (if err < 0 then ([Die ctx], Exits 1) else skip)"

text \<open>
  Modelled from the spec: \<^verbatim>\<open>cstring_bytes\<close> (\<^verbatim>\<open>common.c\<close>, not among the sources) gives
  the bytes of a name, and the empty byte string for a name that was not supplied.
\<close>

definition cstring_bytes :: "c_string option \<Rightarrow> amqp_bytes_t" where
  "cstring_bytes str = (case str of None \<Rightarrow> [] | Some s \<Rightarrow> s)"

text \<open>
  Modelled from the spec: \<^verbatim>\<open>make_connection\<close> (\<^verbatim>\<open>common.c\<close>, not among the sources)
  establishes the authenticated session with the broker; a failure is fatal.
\<close>

definition make_connection :: "broker \<Rightarrow> unit run" where
  "make_connection conn =
     (if connect_ok conn then ([MakeConnection], Returns ())
      else ([MakeConnection, Die ''opening connection''], Exits 1))"

text \<open>
  Modelled from the spec: \<^verbatim>\<open>close_connection\<close> (\<^verbatim>\<open>common.c\<close>, not among the sources)
  closes the session.
\<close>

definition close_connection :: "unit run" where
  "close_connection = ([CloseConnection], Returns ())"

text \<open>
  The requests of librabbitmq, which is not among the sources, follow. Each one is sent
  with the arguments the tool gives it and returns what the broker replies.
\<close>

text \<open>
  Modelled from the spec: \<^verbatim>\<open>amqp_queue_declare\<close> sends \<^verbatim>\<open>queue.declare\<close> and returns the
  reply, which holds the name of the queue, or \<^verbatim>\<open>NULL\<close> when the request failed.
\<close>

definition amqp_queue_declare ::
  "broker \<Rightarrow> amqp_channel_t \<Rightarrow> amqp_bytes_t \<Rightarrow> amqp_boolean_t \<Rightarrow> amqp_boolean_t \<Rightarrow>
   amqp_boolean_t \<Rightarrow> amqp_boolean_t \<Rightarrow> amqp_bytes_t option run" where
  "amqp_queue_declare conn ch q passive durable exclusive auto_delete =
     ([QueueDeclare ch q passive durable exclusive auto_delete], Returns (declare_reply conn))"

text \<open>
  Modelled from the spec: \<^verbatim>\<open>amqp_queue_bind\<close> sends \<^verbatim>\<open>queue.bind\<close>; the result tells
  whether the broker accepted it (a non-\<^verbatim>\<open>NULL\<close> reply).
\<close>

definition amqp_queue_bind ::
  "broker \<Rightarrow> amqp_channel_t \<Rightarrow> amqp_bytes_t \<Rightarrow> amqp_bytes_t \<Rightarrow> amqp_bytes_t \<Rightarrow> bool run" where
  "amqp_queue_bind conn ch q ex rk = ([QueueBind ch q ex rk], Returns (bind_ok conn))"

text \<open>
  Modelled from the spec: \<^verbatim>\<open>amqp_basic_qos\<close> sends \<^verbatim>\<open>basic.qos\<close>; the result tells whether
  the broker accepted it.
\<close>

definition amqp_basic_qos ::
  "broker \<Rightarrow> amqp_channel_t \<Rightarrow> 32 word \<Rightarrow> 16 word \<Rightarrow> amqp_boolean_t \<Rightarrow> bool run" where
  "amqp_basic_qos conn ch prefetch_size prefetch_count global =
     ([BasicQos ch prefetch_size prefetch_count global], Returns (qos_ok conn))"

text \<open>
  Modelled from the spec: \<^verbatim>\<open>amqp_basic_consume\<close> sends \<^verbatim>\<open>basic.consume\<close>; the result tells
  whether the broker accepted it.
\<close>

definition amqp_basic_consume ::
  "broker \<Rightarrow> amqp_channel_t \<Rightarrow> amqp_bytes_t \<Rightarrow> amqp_bytes_t \<Rightarrow> amqp_boolean_t \<Rightarrow>
   amqp_boolean_t \<Rightarrow> amqp_boolean_t \<Rightarrow> bool run" where
  "amqp_basic_consume conn ch q consumer_tag no_local no_ack exclusive =
     ([BasicConsume ch q consumer_tag no_local no_ack exclusive], Returns (consume_ok conn))"

text \<open>
  Modelled from the spec: \<^verbatim>\<open>amqp_simple_wait_frame\<close> blocks until the next frame arrives
  and returns a status together with the frame.
\<close>

definition amqp_simple_wait_frame :: "arrival \<Rightarrow> (int \<times> amqp_frame_t) run" where
  "amqp_simple_wait_frame a = ([SimpleWaitFrame], Returns (wait_res a, frame a))"

text \<open>
  Modelled from the spec: \<^verbatim>\<open>amqp_basic_ack\<close> sends \<^verbatim>\<open>basic.ack\<close> and returns a status.
\<close>

definition amqp_basic_ack ::
  "arrival \<Rightarrow> amqp_channel_t \<Rightarrow> 64 word \<Rightarrow> amqp_boolean_t \<Rightarrow> int run" where
  "amqp_basic_ack a ch tag multiple = ([BasicAck ch tag multiple], Returns (ack_res a))"

text \<open>
  Modelled from the spec: \<^verbatim>\<open>amqp_maybe_release_buffers\<close> is a housekeeping hint to the
  library.
\<close>

definition amqp_maybe_release_buffers :: "unit run" where
  "amqp_maybe_release_buffers = ([MaybeReleaseBuffers], Returns ())"

text \<open>
  Modelled from the spec: \<^verbatim>\<open>pipeline\<close> (\<^verbatim>\<open>process.c\<close>, not among the sources) spawns the
  command; a failure to spawn is fatal.
\<close>

definition pipeline :: "c_string list \<Rightarrow> arrival \<Rightarrow> unit run" where
  "pipeline argv a =
     (if spawn_ok a then ([Pipeline argv], Returns ())
      else ([Pipeline argv, Die ''pipeline''], Exits 1))"

text \<open>
  Modelled from the spec: \<^verbatim>\<open>copy_body\<close> (\<^verbatim>\<open>common.c\<close>, not among the sources) writes the
  whole body of the delivery to the input of the pipeline; an error on the way is fatal.
  The event \<open>CopyBody\<close> stands for the complete copy.
\<close>

definition copy_body :: "arrival \<Rightarrow> unit run" where
  "copy_body a =
     (if body_ok a then ([CopyBody (body a)], Returns ())
      else ([Die ''copy_body''], Exits 1))"

text \<open>
  Modelled from the spec: \<^verbatim>\<open>finish_pipeline\<close> (\<^verbatim>\<open>process.c\<close>, not among the sources)
  waits for every stage of the pipeline and reports success, a non-zero result, exactly
  when every stage exited with status zero.
\<close>

definition finish_pipeline :: "arrival \<Rightarrow> int run" where
  "finish_pipeline a =
     ([FinishPipeline], Returns (if list_all (\<lambda>s. s = 0) (stage_status a) then 1 else 0))"

subsection \<open>\<^verbatim>\<open>setup_queue\<close>\<close>

definition setup_queue ::
  "broker \<Rightarrow> c_string option \<Rightarrow> c_string option \<Rightarrow> c_string option \<Rightarrow> int \<Rightarrow>
   amqp_bytes_t run" where
  "setup_queue conn queue exchange routing_key declare =
     (let queue_bytes = cstring_bytes queue in
      bind_run
        (if exchange = None \<and> routing_key \<noteq> None
         then ([Fprintf_stderr
                 ''--routing-key option requires an exchange name to be provided with --exchange\<newline>''
                 []], Exits 1)
         else skip)
        (\<lambda>_. if queue = None \<or> exchange \<noteq> None \<or> declare \<noteq> 0 then
           bind_run (amqp_queue_declare conn 1 queue_bytes 0 0 1 1) (\<lambda>res.
           case res of
             None \<Rightarrow> die_rpc ''queue.declare''
           | Some res_queue \<Rightarrow>
               bind_run
                 (if queue = None then
                    (case stringify_bytes (malloc_junk conn) res_queue of
                       None \<Rightarrow> ([], Faults)
                     | Some sq \<Rightarrow>
                         ([Fprintf_stderr ''Server provided queue name: %s\<newline>'' [c_str sq]],
                          Returns res_queue))
                  else ([], Returns queue_bytes))
                 (\<lambda>queue_bytes.
                    bind_run
                      (case exchange of
                         None \<Rightarrow> skip
                       | Some eb \<Rightarrow>
                           bind_run
                             (amqp_queue_bind conn 1 queue_bytes eb (cstring_bytes routing_key))
                             (\<lambda>ok. if \<not> ok then die_rpc ''queue.bind'' else skip))
                      (\<lambda>_. ([], Returns queue_bytes))))
         else ([], Returns queue_bytes)))"

subsection \<open>\<^verbatim>\<open>do_consume\<close>\<close>

text \<open>
  The body of the \<^verbatim>\<open>for\<close> loop, from the wait for a frame to the release of the buffers.
  A \<^verbatim>\<open>continue\<close> ends the body early; like the end of the body it returns to the loop,
  which then increments \<^verbatim>\<open>i\<close>.
\<close>

definition iteration :: "int \<Rightarrow> c_string list \<Rightarrow> arrival \<Rightarrow> unit run" where
  "iteration no_ack argv a =
     bind_run (amqp_simple_wait_frame a) (\<lambda>(res, frame).
     bind_run (die_amqp_error res ''waiting for header frame'') (\<lambda>_.
       if frame_type frame \<noteq> AMQP_FRAME_METHOD \<or> method_id frame \<noteq> AMQP_BASIC_DELIVER_METHOD
       then skip
       else
         (let tag = delivery_tag frame in
          bind_run (pipeline argv a) (\<lambda>_.
          bind_run (copy_body a) (\<lambda>_.
          bind_run (finish_pipeline a) (\<lambda>ok.
          bind_run
            (if ok \<noteq> 0 \<and> no_ack = 0
             then bind_run (amqp_basic_ack a 1 tag 0) (\<lambda>r. die_amqp_error r ''basic.ack'')
             else skip)
            (\<lambda>_. amqp_maybe_release_buffers)))))))"

text \<open>
  The loop \<^verbatim>\<open>for (i = 0; count < 0 || i < count; i++)\<close>, entered with the current value
  of \<^verbatim>\<open>i\<close> and the arrivals still to come. \<^verbatim>\<open>count\<close> and \<^verbatim>\<open>i\<close> are C \<^verbatim>\<open>int\<close>s,
  modelled as integers: when \<^verbatim>\<open>count\<close> is not negative \<^verbatim>\<open>i\<close> stays at most \<^verbatim>\<open>count\<close>,
  and when it is negative the value of \<^verbatim>\<open>i\<close> is never read (the overflow of \<^verbatim>\<open>i\<close> after
  \<open>2\<^sup>3\<^sup>1\<close> iterations of an unbounded loop is left out). When the loop wants a frame
  and the broker sends no more, the wait never returns.
\<close>

fun dispatch :: "int \<Rightarrow> int \<Rightarrow> c_string list \<Rightarrow> int \<Rightarrow> arrival list \<Rightarrow> unit run" where
  "dispatch no_ack count argv i [] =
     (if count < 0 \<or> i < count then ([SimpleWaitFrame], Blocks) else skip)"
| "dispatch no_ack count argv i (a # rest) =
     (if count < 0 \<or> i < count
      then bind_run (iteration no_ack argv a) (\<lambda>_. dispatch no_ack count argv (i + 1) rest)
      else skip)"

text \<open>
  The prefetch count of \<^verbatim>\<open>amqp_basic_qos\<close> is a \<^verbatim>\<open>uint16_t\<close>: \<^verbatim>\<open>count\<close> is converted to
  16 bits on the call.
\<close>

definition do_consume ::
  "broker \<Rightarrow> amqp_bytes_t \<Rightarrow> int \<Rightarrow> int \<Rightarrow> c_string list \<Rightarrow> unit run" where
  "do_consume conn queue no_ack count argv =
     bind_run
       (if count > 0 \<and> count \<le> 65535
        then bind_run (amqp_basic_qos conn 1 0 (word_of_int count) 0)
               (\<lambda>ok. if \<not> ok then die_rpc ''basic.qos'' else skip)
        else skip)
       (\<lambda>_. bind_run
          (bind_run (amqp_basic_consume conn 1 queue [] 0 no_ack 0)
             (\<lambda>ok. if \<not> ok then die_rpc ''basic.consume'' else skip))
          (\<lambda>_. dispatch no_ack count argv 0 (arrivals conn)))"

subsection \<open>\<^verbatim>\<open>main\<close>\<close>

text \<open>
  The variables that \<^verbatim>\<open>process_options\<close> fills in from the command line, and the
  arguments that remain (\<^verbatim>\<open>poptGetArgs\<close>, \<open>None\<close> for \<^verbatim>\<open>NULL\<close>). The option parser is
  not among the sources; \<open>main\<close> is modelled from the point where the options are parsed.
  A return from \<^verbatim>\<open>main\<close> ends the process with the returned status.
\<close>

record options =
  opt_queue :: "c_string option"
  opt_exchange :: "c_string option"
  opt_routing_key :: "c_string option"
  opt_declare :: int
  opt_no_ack :: int
  opt_count :: int
  cmd_argv :: "c_string list option"

text \<open>
  \<^verbatim>\<open>int count = -1;\<close> in \<open>main\<close>: the value \<^verbatim>\<open>count\<close> has when \<^verbatim>\<open>--count\<close> is not given.
\<close>

definition unset_count :: int where
  "unset_count = - 1"

definition usage_error :: "unit run" where
  "usage_error =
     ([Fprintf_stderr ''consuming command not specified\<newline>'' [], PoptPrintUsage], Exits 1)"

definition main :: "options \<Rightarrow> broker \<Rightarrow> unit run" where
  "main opts conn =
     (case cmd_argv opts of
        None \<Rightarrow> usage_error
      | Some [] \<Rightarrow> usage_error
      | Some argv \<Rightarrow>
          bind_run (make_connection conn) (\<lambda>_.
          bind_run (setup_queue conn (opt_queue opts) (opt_exchange opts) (opt_routing_key opts)
                      (opt_declare opts)) (\<lambda>queue_bytes.
          bind_run (do_consume conn queue_bytes (opt_no_ack opts) (opt_count opts) argv) (\<lambda>_.
          bind_run close_connection (\<lambda>_. ([], Exits 0))))))"

subsection \<open>Reading a run\<close>

text \<open>The events \<open>es\<close>, followed by the run \<open>r\<close>.\<close>

definition after :: "event list \<Rightarrow> 'a run \<Rightarrow> 'a run" where
  "after es r = (es @ fst r, snd r)"

text \<open>Kinds of events, for counting them in a trace.\<close>

fun is_qos :: "event \<Rightarrow> bool" where
  "is_qos (BasicQos ch sz n g) = True"
| "is_qos e = False"

fun is_wait :: "event \<Rightarrow> bool" where
  "is_wait SimpleWaitFrame = True"
| "is_wait e = False"

fun is_pipeline :: "event \<Rightarrow> bool" where
  "is_pipeline (Pipeline argv) = True"
| "is_pipeline e = False"

fun is_ack :: "event \<Rightarrow> bool" where
  "is_ack (BasicAck ch tag m) = True"
| "is_ack e = False"

fun is_declare :: "event \<Rightarrow> bool" where
  "is_declare (QueueDeclare ch q pa du ex ad) = True"
| "is_declare e = False"

text \<open>
  The calls that send something to the broker or wait for it, once the connection is
  made.
\<close>

fun is_request :: "event \<Rightarrow> bool" where
  "is_request (QueueDeclare ch q pa du ex ad) = True"
| "is_request (QueueBind ch q ex rk) = True"
| "is_request (BasicQos ch sz n g) = True"
| "is_request (BasicConsume ch q t nl na ex) = True"
| "is_request (BasicAck ch tag m) = True"
| "is_request SimpleWaitFrame = True"
| "is_request e = False"

subsection \<open>Sample inputs\<close>

text \<open>Concrete inputs at which the theorems below are instantiated.\<close>

definition zeroed :: "nat \<Rightarrow> c_char" where
  "zeroed i = 0"

text \<open>
  A delivery notification for a tag, and an arrival that carries it without any failure:
  the body is two bytes and the stages of the pipeline exit with the given statuses.
\<close>

definition deliver_frame :: "64 word \<Rightarrow> amqp_frame_t" where
  "deliver_frame tag =
     \<lparr>frame_type = AMQP_FRAME_METHOD, method_id = AMQP_BASIC_DELIVER_METHOD, delivery_tag = tag\<rparr>"

definition delivery :: "64 word \<Rightarrow> int list \<Rightarrow> arrival" where
  "delivery tag statuses =
     \<lparr>wait_res = 0, frame = deliver_frame tag, spawn_ok = True, body = [0x68, 0x69],
      body_ok = True, stage_status = statuses, ack_res = 0\<rparr>"

text \<open>
  A method frame that is not a delivery: \<^verbatim>\<open>channel.flow\<close> (class 20, method 20), which a
  broker may send on the channel at any time.
\<close>

definition channel_flow :: arrival where
  "channel_flow =
     \<lparr>wait_res = 0,
      frame = \<lparr>frame_type = AMQP_FRAME_METHOD, method_id = 0x00140014, delivery_tag = 0\<rparr>,
      spawn_ok = True, body = [], body_ok = True, stage_status = [], ack_res = 0\<rparr>"

text \<open>
  A broker that accepts every request and names a declared queue \<^verbatim>\<open>amq.\<close> followed by
  the byte 1.
\<close>

definition willing_broker :: "arrival list \<Rightarrow> broker" where
  "willing_broker as =
     \<lparr>connect_ok = True, declare_reply = Some [0x61, 0x6D, 0x71, 0x2E, 0x01],
      bind_ok = True, qos_ok = True, consume_ok = True, malloc_junk = zeroed, arrivals = as\<rparr>"

text \<open>The command \<^verbatim>\<open>cat\<close>.\<close>

definition cat :: "c_string list" where
  "cat = [[0x63, 0x61, 0x74]]"

text \<open>A command line with a routing key and no exchange.\<close>

definition misconfigured :: options where
  "misconfigured =
     \<lparr>opt_queue = None, opt_exchange = None, opt_routing_key = Some [0x72, 0x6B],
      opt_declare = 0, opt_no_ack = 0, opt_count = - 1, cmd_argv = Some cat\<rparr>"

text \<open>A command line that names the queue \<^verbatim>\<open>q\<close> and gives a count.\<close>

definition plain_options :: "int \<Rightarrow> options" where
  "plain_options n =
     \<lparr>opt_queue = Some [0x71], opt_exchange = None, opt_routing_key = None,
      opt_declare = 0, opt_no_ack = 0, opt_count = n, cmd_argv = Some cat\<rparr>"

section \<open>Properties of \<^verbatim>\<open>stringify_bytes\<close>\<close>

lemma store_inc_written:
  "p w < length (res w) \<Longrightarrow> store_inc c w = Some (written [c] w)"
  by (simp add: store_inc_def written_def upd_conv_take_nth_drop)

lemma written_append:
  "p w + length cs \<le> length (res w) \<Longrightarrow> written ds (written cs w) = written (cs @ ds) w"
  by (simp add: written_def ac_simps)

lemma length_res_written:
  "p w + length cs \<le> length (res w) \<Longrightarrow> length (res (written cs w)) = length (res w)"
  by (simp add: written_def)

lemma p_written: "p (written cs w) = p w + length cs"
  by (simp add: written_def)

lemma length_escaped: "length (escaped d) = (if is_literal d then 1 else 4)"
  by (simp add: escaped_def)

lemma stringify_byte_written:
  assumes "p w + length (escaped d) \<le> length (res w)"
  shows "stringify_byte d w = Some (written (escaped d) w)"
proof (cases "is_literal d")
  case True
  with assms show ?thesis
    by (simp add: stringify_byte_def escaped_def is_literal_def store_inc_written)
next
  case False
  with assms have room: "p w + 4 \<le> length (res w)"
    by (simp add: escaped_def)
  let ?c1 = "0x5C :: c_char" and ?c2 = "0x30 + drop_bit 6 d"
    and ?c3 = "0x30 + (drop_bit 3 d AND 0x7)" and ?c4 = "0x30 + (d AND 0x7)"
  have s1: "store_inc ?c1 w = Some (written [?c1] w)"
    using room by (simp add: store_inc_written)
  have s2: "store_inc ?c2 (written [?c1] w) = Some (written [?c1, ?c2] w)"
    using room by (simp add: store_inc_written p_written length_res_written written_append)
  have s3: "store_inc ?c3 (written [?c1, ?c2] w) = Some (written [?c1, ?c2, ?c3] w)"
    using room by (simp add: store_inc_written p_written length_res_written written_append)
  have s4: "store_inc ?c4 (written [?c1, ?c2, ?c3] w) = Some (written [?c1, ?c2, ?c3, ?c4] w)"
    using room by (simp add: store_inc_written p_written length_res_written written_append)
  from False show ?thesis
    unfolding stringify_byte_def is_literal_def [symmetric]
    by (simp add: escaped_def s1 s2 s3 s4)
qed


lemma octal_split: "64 * ((n::nat) div 64) + 8 * (n div 8 mod 8) + n mod 8 = n"
proof -
  have "n mod (8 * 8) = 8 * (n div 8 mod 8) + n mod 8"
    by (rule mod_mult2_eq)
  then have "n mod 64 = 8 * (n div 8 mod 8) + n mod 8"
    by simp
  moreover have "64 * (n div 64) + n mod 64 = n"
    by simp
  ultimately show ?thesis
    by linarith
qed

lemma and7: "(x::8 word) AND 7 = take_bit 3 x"
proof -
  have "(7::8 word) = mask 3" by (simp add: mask_eq_exp_minus_1)
  then show ?thesis by (simp add: take_bit_eq_mask)
qed

lemma unat_and7: "unat ((x::8 word) AND 7) = unat x mod 8"
  unfolding and7 unsigned_take_bit_eq by (simp add: take_bit_eq_mod)

lemma unat_drop: "unat (drop_bit n (x::8 word)) = unat x div 2 ^ n"
  unfolding unat_drop_bit_eq by (simp add: drop_bit_eq_div)

lemma unat_lt256: "unat (x::8 word) < 256"
  using unsigned_less [of x, where ?'a = nat] by simp

lemma unat_digit0: "unat (0x30 + (d AND 7) :: 8 word) = 48 + unat d mod 8"
proof -
  have "unat (0x30 + (d AND 7) :: 8 word) = (48 + unat d mod 8) mod 256"
    unfolding unat_word_ariths unat_and7 by simp
  then show ?thesis by simp
qed

lemma unat_digit1: "unat (0x30 + (drop_bit 3 d AND 7) :: 8 word) = 48 + (unat d div 8) mod 8"
proof -
  have "unat (0x30 + (drop_bit 3 d AND 7) :: 8 word) = (48 + (unat d div 8) mod 8) mod 256"
    unfolding unat_word_ariths unat_and7 unat_drop by simp
  then show ?thesis by simp
qed

lemma unat_digit2: "unat (0x30 + (drop_bit 6 d) :: 8 word) = 48 + (unat d div 64)"
proof -
  have "unat (0x30 + (drop_bit 6 d) :: 8 word) = (48 + (unat d div 64)) mod 256"
    unfolding unat_word_ariths unat_drop by simp
  moreover have "unat d div 64 < 4" using unat_lt256 [of d] by simp
  ultimately show ?thesis by simp
qed

lemma is_literal_unat: "is_literal d \<longleftrightarrow> 32 \<le> unat d \<and> unat d \<noteq> 127"
  by (simp add: is_literal_def word_le_nat_alt word_unat_eq_iff)


lemma escaped_all_simps:
  "escaped_all [] = []"
  "escaped_all (d # ds) = escaped d @ escaped_all ds"
  by (simp_all add: escaped_all_def)

lemma length_escaped_all:
  "length (escaped_all bs) = length (filter is_literal bs) + 4 * length (filter (\<lambda>d. \<not> is_literal d) bs)"
  by (induction bs) (simp_all add: escaped_all_simps length_escaped)

lemma length_escaped_all_le: "length (escaped_all bs) \<le> 4 * length bs"
  by (induction bs) (simp_all add: escaped_all_simps length_escaped)

lemma written_Nil: "p w \<le> length (res w) \<Longrightarrow> written [] w = w"
  by (simp add: written_def)

lemma stringify_loop_written:
  "p w + length (escaped_all ds) \<le> length (res w) \<Longrightarrow>
   stringify_loop ds w = Some (written (escaped_all ds) w)"
proof (induction ds arbitrary: w)
  case Nil
  then show ?case by (simp add: escaped_all_simps written_Nil)
next
  case (Cons d ds)
  from Cons.prems have room: "p w + length (escaped d) \<le> length (res w)"
    by (simp add: escaped_all_simps)
  let ?w = "written (escaped d) w"
  from Cons.prems room have "p ?w + length (escaped_all ds) \<le> length (res ?w)"
    by (simp add: p_written length_res_written escaped_all_simps)
  then have "stringify_loop ds ?w = Some (written (escaped_all ds) ?w)"
    by (rule Cons.IH)
  with room show ?case
    by (simp add: stringify_byte_written written_append escaped_all_simps)
qed

lemma stringify_run_eq:
  "stringify_run junk bs =
     Some \<lparr>res = escaped_all bs @ 0 # drop (length (escaped_all bs) + 1) (malloc junk (length bs * 4 + 1)),
           p = length (escaped_all bs)\<rparr>"
proof -
  let ?blk = "malloc junk (length bs * 4 + 1)"
  let ?w0 = "\<lparr>res = ?blk, p = 0\<rparr>"
  have len: "length ?blk = length bs * 4 + 1"
    by (simp add: malloc_def)
  have le: "length (escaped_all bs) \<le> 4 * length bs"
    by (rule length_escaped_all_le)
  then have "stringify_loop bs ?w0 = Some (written (escaped_all bs) ?w0)"
    by (intro stringify_loop_written) (simp add: malloc_def)
  moreover have "store 0 (written (escaped_all bs) ?w0) =
      Some \<lparr>res = escaped_all bs @ 0 # drop (length (escaped_all bs) + 1) ?blk,
            p = length (escaped_all bs)\<rparr>"
    using le by (simp add: store_def written_def malloc_def upd_conv_take_nth_drop)
  ultimately show ?thesis
    by (simp add: stringify_run_def)
qed


lemma is_octal_digit_unat: "is_octal_digit c \<longleftrightarrow> 48 \<le> unat c \<and> unat c \<le> 55"
  by (simp add: is_octal_digit_def word_le_nat_alt)

lemma octal_digit_literal: "is_octal_digit c \<Longrightarrow> is_literal c"
  by (simp add: is_octal_digit_unat is_literal_unat)

lemma backslash_not_digit: "\<not> is_octal_digit 0x5C"
  by (simp add: is_octal_digit_unat)

lemma digits_are_octal:
  "is_octal_digit (0x30 + drop_bit 6 d)"
  "is_octal_digit (0x30 + (drop_bit 3 d AND 7))"
  "is_octal_digit (0x30 + (d AND 7))"
  using unat_lt256 [of d]
  by (simp_all add: is_octal_digit_unat unat_digit0 unat_digit1 unat_digit2)

lemma word_octal_split:
  "64 * drop_bit 6 d + 8 * (drop_bit 3 d AND 7) + (d AND 7) = (d :: 8 word)"
proof -
  have "unat (64 * drop_bit 6 d + 8 * (drop_bit 3 d AND 7) + (d AND 7))
      = (64 * (unat d div 64) + 8 * (unat d div 8 mod 8) + unat d mod 8) mod 256"
    unfolding unat_word_ariths unat_and7 unat_drop by (simp add: mod_simps)
  also have "\<dots> = unat d"
    using unat_lt256 [of d] by (simp add: octal_split)
  finally show ?thesis
    by (simp add: word_unat_eq_iff)
qed

lemma escaped_all_Cons_if:
  "escaped_all (d # ds) =
     (if is_literal d then d # escaped_all ds
      else 0x5C # (0x30 + drop_bit 6 d) # (0x30 + (drop_bit 3 d AND 7)) # (0x30 + (d AND 7)) # escaped_all ds)"
  by (simp add: escaped_all_simps escaped_def)

lemma three_octal_digits_escaped_all:
  "three_octal_digits (escaped_all ds) = three_octal_digits ds"
proof (cases ds rule: three_octal_digits.cases)
  case (1 d2 d1 d0 cs)
  then show ?thesis
    by (auto simp: escaped_all_Cons_if backslash_not_digit dest: octal_digit_literal)
next
  case 2
  then show ?thesis by (simp add: escaped_all_simps)
next
  case (3 a)
  then show ?thesis
    by (auto simp: escaped_all_Cons_if escaped_all_simps backslash_not_digit)
next
  case (4 a b)
  then show ?thesis
    by (auto simp: escaped_all_Cons_if escaped_all_simps backslash_not_digit dest: octal_digit_literal)
qed

lemma octal_decode_plain:
  "\<not> (c = 0x5C \<and> three_octal_digits cs) \<Longrightarrow> octal_decode (c # cs) = c # octal_decode cs"
  by (cases cs rule: three_octal_digits.cases) auto

lemma octal_decode_escape:
  "\<not> is_literal d \<Longrightarrow>
   octal_decode (0x5C # (0x30 + drop_bit 6 d) # (0x30 + (drop_bit 3 d AND 7)) # (0x30 + (d AND 7)) # cs)
     = d # octal_decode cs"
  by (simp add: digits_are_octal word_octal_split)

lemma octal_decode_escaped_all:
  "unambiguous bs \<Longrightarrow> octal_decode (escaped_all bs) = bs"
proof (induction bs)
  case Nil
  then show ?case by (simp add: escaped_all_simps)
next
  case (Cons b bs)
  then have IH: "octal_decode (escaped_all bs) = bs"
    by simp
  show ?case
  proof (cases "is_literal b")
    case True
    from Cons.prems have "\<not> (b = 0x5C \<and> three_octal_digits (escaped_all bs))"
      by (simp add: three_octal_digits_escaped_all)
    then have "octal_decode (b # escaped_all bs) = b # octal_decode (escaped_all bs)"
      by (rule octal_decode_plain)
    with True IH show ?thesis
      by (simp add: escaped_all_Cons_if)
  next
    case False
    then have "octal_decode (0x5C # (0x30 + drop_bit 6 b) # (0x30 + (drop_bit 3 b AND 7))
        # (0x30 + (b AND 7)) # escaped_all bs) = b # octal_decode (escaped_all bs)"
      by (rule octal_decode_escape)
    with False IH show ?thesis
      by (simp add: escaped_all_Cons_if)
  qed
qed

lemma three_octal_digits_split:
  "three_octal_digits cs \<Longrightarrow>
   \<exists>d2 d1 d0 rest. cs = d2 # d1 # d0 # rest
      \<and> is_octal_digit d2 \<and> is_octal_digit d1 \<and> is_octal_digit d0"
  by (cases cs rule: three_octal_digits.cases) auto

lemma length_octal_decode_escaped_all:
  "length (octal_decode (escaped_all bs)) \<le> length bs
   \<and> (\<not> unambiguous bs \<longrightarrow> length (octal_decode (escaped_all bs)) < length bs)"
proof (induction "length bs" arbitrary: bs rule: less_induct)
  case less
  show ?case
  proof (cases bs)
    case Nil
    then show ?thesis by (simp add: escaped_all_simps)
  next
    case (Cons b bs')
    have IH: "length (octal_decode (escaped_all bs')) \<le> length bs'
        \<and> (\<not> unambiguous bs' \<longrightarrow> length (octal_decode (escaped_all bs')) < length bs')"
      using less [of bs'] Cons by simp
    show ?thesis
    proof (cases "b = 0x5C \<and> three_octal_digits bs'")
      case True
      then obtain d2 d1 d0 rest where bs': "bs' = d2 # d1 # d0 # rest"
        and dig: "is_octal_digit d2" "is_octal_digit d1" "is_octal_digit d0"
        using three_octal_digits_split by blast
      have "is_literal b"
        using True by (simp add: is_literal_unat)
      with dig have lit: "is_literal b" "is_literal d2" "is_literal d1" "is_literal d0"
        by (simp_all add: octal_digit_literal)
      have "length (octal_decode (escaped_all rest)) \<le> length rest"
        using less [of rest] Cons bs' by simp
      moreover have "escaped_all bs = 0x5C # d2 # d1 # d0 # escaped_all rest"
        using Cons bs' lit True by (simp add: escaped_all_Cons_if)
      ultimately show ?thesis
        using Cons bs' dig by simp
    next
      case False
      show ?thesis
      proof (cases "is_literal b")
        case lit: True
        from False have "\<not> (b = 0x5C \<and> three_octal_digits (escaped_all bs'))"
          by (simp add: three_octal_digits_escaped_all)
        then have "octal_decode (b # escaped_all bs') = b # octal_decode (escaped_all bs')"
          by (rule octal_decode_plain)
        with lit IH False Cons show ?thesis
          by (auto simp: escaped_all_Cons_if)
      next
        case esc: False
        then have "octal_decode (0x5C # (0x30 + drop_bit 6 b) # (0x30 + (drop_bit 3 b AND 7))
            # (0x30 + (b AND 7)) # escaped_all bs') = b # octal_decode (escaped_all bs')"
          by (rule octal_decode_escape)
        with esc IH False Cons show ?thesis
          by (auto simp: escaped_all_Cons_if)
      qed
    qed
  qed
qed

lemma octal_decode_escaped_all_iff:
  "octal_decode (escaped_all bs) = bs \<longleftrightarrow> unambiguous bs"
proof
  assume eq: "octal_decode (escaped_all bs) = bs"
  show "unambiguous bs"
  proof (rule ccontr)
    assume "\<not> unambiguous bs"
    then have "length (octal_decode (escaped_all bs)) < length bs"
      using length_octal_decode_escaped_all [of bs] by simp
    with eq show False by simp
  qed
next
  assume "unambiguous bs"
  then show "octal_decode (escaped_all bs) = bs"
    by (rule octal_decode_escaped_all)
qed

lemma zero_notin_escaped: "0 \<notin> set (escaped d)"
proof -
  have "unat (0x30 + drop_bit 6 d) \<noteq> 0" "unat (0x30 + (drop_bit 3 d AND 7)) \<noteq> 0"
    "unat (0x30 + (d AND 7)) \<noteq> 0"
    by (simp_all add: unat_digit0 unat_digit1 unat_digit2)
  then have "0x30 + drop_bit 6 d \<noteq> 0" "0x30 + (drop_bit 3 d AND 7) \<noteq> 0" "0x30 + (d AND 7) \<noteq> 0"
    by auto
  moreover have "is_literal d \<Longrightarrow> d \<noteq> 0"
    by (auto simp: is_literal_def)
  ultimately show ?thesis
    by (simp add: escaped_def)
qed

lemma zero_notin_escaped_all: "0 \<notin> set (escaped_all bs)"
  by (induction bs) (simp_all add: escaped_all_simps zero_notin_escaped)

lemma c_str_terminated: "0 \<notin> set cs \<Longrightarrow> c_str (cs @ 0 # rest) = cs"
  by (induction cs) (simp_all add: c_str_def)

lemma c_str_stringify_run:
  "map_option (c_str \<circ> res) (stringify_run junk bs) = Some (escaped_all bs)"
  by (simp add: stringify_run_eq c_str_terminated zero_notin_escaped_all)


lemma c_str_stringify_bytes:
  "map_option c_str (stringify_bytes junk bs) = Some (escaped_all bs)"
  using c_str_stringify_run [of junk bs]
  by (simp add: stringify_bytes_def option.map_comp)

lemma escaped_unfold:
  "escaped =
     (\<lambda>b. if 32 \<le> b \<and> b \<noteq> 127 then [b]
          else [0x5C, 0x30 + drop_bit 6 b, 0x30 + (drop_bit 3 b AND 0x7), 0x30 + (b AND 0x7)])"
  by (rule ext) (simp add: escaped_def is_literal_def)

lemma unat_octal_digits_less:
  "unat (drop_bit 6 (b :: 8 word)) < 8" "unat (drop_bit 3 b AND 7) < 8" "unat (b AND 7) < 8"
  using unat_lt256 [of b] by (simp_all add: unat_drop unat_and7)

text \<open>
  C6. For every byte \<open>b\<close> of the input, \<^verbatim>\<open>stringify_bytes\<close> emits \<open>b\<close> itself when
  \<open>b \<ge> 32\<close> and \<open>b \<noteq> 127\<close>, and otherwise a backslash followed by the three characters
  \<open>'0' + (b >> 6)\<close>, \<open>'0' + ((b >> 3) & 7)\<close>, \<open>'0' + (b & 7)\<close>: the string returned is
  the concatenation of these pieces, in order. The three characters are octal digits
  (the additions do not wrap and each digit is below 8), and read as an octal numeral
  the digits have the value \<open>b\<close>.
\<close>

theorem stringify_bytes_per_byte:
  "map_option c_str (stringify_bytes junk bs) =
     Some (concat (map (\<lambda>b. if 32 \<le> b \<and> b \<noteq> 127 then [b]
                            else [0x5C, 0x30 + drop_bit 6 b, 0x30 + (drop_bit 3 b AND 0x7),
                                  0x30 + (b AND 0x7)]) bs))
   \<and> unat (0x30 + drop_bit 6 d) = 48 + unat (drop_bit 6 d) \<and> unat (drop_bit 6 d) < 8
   \<and> unat (0x30 + (drop_bit 3 d AND 0x7)) = 48 + unat (drop_bit 3 d AND 0x7)
   \<and> unat (drop_bit 3 d AND 0x7) < 8
   \<and> unat (0x30 + (d AND 0x7)) = 48 + unat (d AND 0x7) \<and> unat (d AND 0x7) < 8
   \<and> 64 * unat (drop_bit 6 d) + 8 * unat (drop_bit 3 d AND 0x7) + unat (d AND 0x7)
       = unat (d :: uint8_t)"
proof -
  have "map_option c_str (stringify_bytes junk bs) = Some (concat (map escaped bs))"
    by (simp add: c_str_stringify_bytes escaped_all_def)
  moreover have "unat (0x30 + drop_bit 6 d) = 48 + unat (drop_bit 6 d)"
    by (simp add: unat_digit2 unat_drop)
  moreover have "unat (0x30 + (drop_bit 3 d AND 0x7)) = 48 + unat (drop_bit 3 d AND 0x7)"
    by (simp add: unat_digit1 unat_and7 unat_drop)
  moreover have "unat (0x30 + (d AND 0x7)) = 48 + unat (d AND 0x7)"
    by (simp add: unat_digit0 unat_and7)
  moreover have "64 * unat (drop_bit 6 d) + 8 * unat (drop_bit 3 d AND 0x7) + unat (d AND 0x7)
      = unat d"
    by (simp add: unat_drop unat_and7 octal_split)
  ultimately show ?thesis
    unfolding escaped_unfold using unat_octal_digits_less [of d] by simp
qed

theorem stringify_bytes_per_byte_witness:
  "map_option c_str (stringify_bytes zeroed [0x41, 0x0A, 0x7F]) =
     Some [0x41, 0x5C, 0x30, 0x31, 0x32, 0x5C, 0x31, 0x37, 0x37]"
  using stringify_bytes_per_byte [of zeroed "[0x41, 0x0A, 0x7F]" 0] by simp

text \<open>
  C10. For an input of \<open>len\<close> bytes the loop advances \<^verbatim>\<open>p\<close> by one for every byte kept
  literal and by four for every escaped byte, and then stores the terminating NUL: every
  store falls inside the block of \<open>4 * len + 1\<close> characters (the run of the function is
  \<open>Some\<close>), the NUL is at the final position of \<^verbatim>\<open>p\<close>, and no NUL stands before it.
\<close>

theorem stringify_bytes_within_block:
  "\<exists>w. stringify_run junk bs = Some w
     \<and> stringify_bytes junk bs = Some (res w)
     \<and> length (res w) = length bs * 4 + 1
     \<and> p w = length (filter (\<lambda>b. 32 \<le> b \<and> b \<noteq> 127) bs)
             + 4 * length (filter (\<lambda>b. \<not> (32 \<le> b \<and> b \<noteq> 127)) bs)
     \<and> p w + 1 \<le> length bs * 4 + 1
     \<and> res w ! p w = 0
     \<and> 0 \<notin> set (take (p w) (res w))"
proof -
  let ?w = "\<lparr>res = escaped_all bs
      @ 0 # drop (length (escaped_all bs) + 1) (malloc junk (length bs * 4 + 1)),
    p = length (escaped_all bs)\<rparr>"
  have run: "stringify_run junk bs = Some ?w"
    by (rule stringify_run_eq)
  have le: "length (escaped_all bs) \<le> 4 * length bs"
    by (rule length_escaped_all_le)
  have "length (res ?w) = length bs * 4 + 1"
    using le by (simp add: malloc_def)
  moreover have "p ?w = length (filter (\<lambda>b. 32 \<le> b \<and> b \<noteq> 127) bs)
             + 4 * length (filter (\<lambda>b. \<not> (32 \<le> b \<and> b \<noteq> 127)) bs)"
    using length_escaped_all [of bs] by (simp add: is_literal_def [abs_def])
  moreover have "res ?w ! p ?w = 0"
    by (simp add: nth_append)
  moreover have "0 \<notin> set (take (p ?w) (res ?w))"
    by (simp add: zero_notin_escaped_all)
  ultimately show ?thesis
    using run le by (intro exI [of _ ?w]) (simp add: stringify_bytes_def)
qed

text \<open>
  C5. The claim asks that escaping a byte sequence and decoding the octal escapes gives
  the sequence back, for every byte sequence. The code does not do this at the four bytes
  backslash, \<open>0\<close>, \<open>0\<close>, \<open>1\<close>: the loop keeps a backslash literal instead of escaping
  it, so these bytes are rendered as themselves, which is also the rendering of the
  single byte 1, and decoding gives the single byte. The comment above the function
  says that it uses the escaping conventions of rabbitmqctl, under which a backslash is
  escaped as well.
\<close>

theorem stringify_bytes_not_injective:
  "map_option c_str (stringify_bytes zeroed [0x5C, 0x30, 0x30, 0x31]) = Some [0x5C, 0x30, 0x30, 0x31]
   \<and> map_option c_str (stringify_bytes zeroed [0x01]) = Some [0x5C, 0x30, 0x30, 0x31]
   \<and> octal_decode [0x5C, 0x30, 0x30, 0x31] = [0x01]
   \<and> map_option (octal_decode \<circ> c_str) (stringify_bytes zeroed [0x5C, 0x30, 0x30, 0x31])
       \<noteq> Some [0x5C, 0x30, 0x30, 0x31]"
proof -
  have a: "map_option c_str (stringify_bytes zeroed [0x5C, 0x30, 0x30, 0x31])
      = Some [0x5C, 0x30, 0x30, 0x31]"
    by (simp add: c_str_stringify_bytes escaped_all_simps escaped_def is_literal_def)
  have b: "map_option c_str (stringify_bytes zeroed [0x01]) = Some [0x5C, 0x30, 0x30, 0x31]"
    by (simp add: c_str_stringify_bytes escaped_all_simps escaped_def is_literal_unat)
  have c: "octal_decode [0x5C, 0x30, 0x30, 0x31] = [0x01]"
    by (simp add: is_octal_digit_def)
  have "map_option (octal_decode \<circ> c_str) (stringify_bytes zeroed [0x5C, 0x30, 0x30, 0x31])
      = map_option octal_decode (map_option c_str (stringify_bytes zeroed [0x5C, 0x30, 0x30, 0x31]))"
    by (simp add: option.map_comp)
  also have "\<dots> = Some [0x01]"
    by (simp only: a c option.map)
  finally have e: "map_option (octal_decode \<circ> c_str)
      (stringify_bytes zeroed [0x5C, 0x30, 0x30, 0x31]) = Some [0x01]" .
  have d: "map_option (octal_decode \<circ> c_str)
      (stringify_bytes zeroed [0x5C, 0x30, 0x30, 0x31]) \<noteq> Some [0x5C, 0x30, 0x30, 0x31]"
    unfolding e by simp
  from a b c d show ?thesis
    by (intro conjI)
qed

text \<open>
  The literal backslash is the only obstacle: decoding the string that
  \<^verbatim>\<open>stringify_bytes\<close> returns gives the byte sequence back exactly for the byte sequences
  in which no backslash byte is followed by three bytes that are octal digits.
\<close>

lemma roundtrip_iff_unambiguous:
  "map_option (octal_decode \<circ> c_str) (stringify_bytes junk bs) = Some bs
   \<longleftrightarrow> unambiguous bs"
proof -
  have "map_option (octal_decode \<circ> c_str) (stringify_bytes junk bs)
      = map_option octal_decode (map_option c_str (stringify_bytes junk bs))"
    by (simp add: option.map_comp)
  then have e: "map_option (octal_decode \<circ> c_str) (stringify_bytes junk bs)
      = Some (octal_decode (escaped_all bs))"
    by (simp only: c_str_stringify_bytes option.map)
  show ?thesis
    unfolding e by (simp add: octal_decode_escaped_all_iff)
qed

section \<open>Properties of the dispatch loop, the setup and \<^verbatim>\<open>main\<close>\<close>

lemma bind_run_Returns: "bind_run (es, Returns a) f = after es (f a)"
  by (simp add: bind_run_def after_def split: prod.split)

lemma bind_run_Exits: "bind_run (es, Exits n) f = (es, Exits n)"
  by (simp add: bind_run_def)

lemma bind_run_Blocks: "bind_run (es, Blocks) f = (es, Blocks)"
  by (simp add: bind_run_def)

lemma bind_run_Faults: "bind_run (es, Faults) f = (es, Faults)"
  by (simp add: bind_run_def)

lemmas bind_run_simps = bind_run_Returns bind_run_Exits bind_run_Blocks bind_run_Faults

lemma after_Nil: "after [] r = r"
  by (simp add: after_def)

lemma after_after: "after es (after es' r) = after (es @ es') r"
  by (simp add: after_def)

lemma after_pair: "after es (es', r) = (es @ es', r)"
  by (simp add: after_def)

lemma fst_after: "fst (after es r) = es @ fst r"
  by (simp add: after_def)

lemma snd_after: "snd (after es r) = snd r"
  by (simp add: after_def)

lemma iteration_discard:
  assumes "0 \<le> wait_res a"
    and "frame_type (frame a) \<noteq> AMQP_FRAME_METHOD \<or> method_id (frame a) \<noteq> AMQP_BASIC_DELIVER_METHOD"
  shows "iteration no_ack argv a = ([SimpleWaitFrame], Returns ())"
  using assms
  by (auto simp: iteration_def amqp_simple_wait_frame_def die_amqp_error_def skip_def
      bind_run_simps after_def)

lemma iteration_wait_error:
  assumes "wait_res a < 0"
  shows "iteration no_ack argv a = ([SimpleWaitFrame, Die ''waiting for header frame''], Exits 1)"
  using assms
  by (simp add: iteration_def amqp_simple_wait_frame_def die_amqp_error_def skip_def
      bind_run_simps after_def)

lemma iteration_deliver:
  assumes "0 \<le> wait_res a"
    and "frame_type (frame a) = AMQP_FRAME_METHOD" "method_id (frame a) = AMQP_BASIC_DELIVER_METHOD"
  shows "iteration no_ack argv a =
    after [SimpleWaitFrame]
     (if \<not> spawn_ok a then ([Pipeline argv, Die ''pipeline''], Exits 1)
      else after [Pipeline argv]
       (if \<not> body_ok a then ([Die ''copy_body''], Exits 1)
        else after [CopyBody (body a), FinishPipeline]
          (if list_all (\<lambda>s. s = 0) (stage_status a) \<and> no_ack = 0
           then after [BasicAck 1 (delivery_tag (frame a)) 0]
                  (if ack_res a < 0 then ([Die ''basic.ack''], Exits 1)
                   else ([MaybeReleaseBuffers], Returns ()))
           else ([MaybeReleaseBuffers], Returns ()))))"
  using assms
  by (simp add: iteration_def amqp_simple_wait_frame_def die_amqp_error_def skip_def
      pipeline_def copy_body_def finish_pipeline_def amqp_basic_ack_def
      amqp_maybe_release_buffers_def bind_run_simps after_def)

text \<open>
  C1. Take any point of the dispatch loop at which it runs another iteration, and let
  the next arrival be a delivery (the wait succeeds, the frame is a method frame with the
  id of \<^verbatim>\<open>basic.deliver\<close>, the pipeline is spawned and the body copied) whose pipeline
  exits with status zero in every stage, in ack mode (\<open>no_ack = 0\<close>). Then the calls
  made for this delivery are, in this order: the wait, the spawn, the copy of the whole
  body, the wait for the pipeline, and one \<^verbatim>\<open>basic.ack\<close> on channel 1 with the tag of
  this delivery and \<open>multiple = 0\<close>. After it the buffers are released and the loop goes
  on with \<open>i + 1\<close>, unless the acknowledgment itself failed, which is fatal. The
  acknowledgments of the iteration are this one and no other.
\<close>

theorem ack_after_successful_pipeline:
  assumes "count < 0 \<or> i < count"
    and "0 \<le> wait_res a"
    and "frame_type (frame a) = AMQP_FRAME_METHOD"
    and "method_id (frame a) = AMQP_BASIC_DELIVER_METHOD"
    and "spawn_ok a" and "body_ok a"
    and "list_all (\<lambda>s. s = 0) (stage_status a)"
    and "no_ack = 0"
  shows "dispatch no_ack count argv i (a # rest) =
     after [SimpleWaitFrame, Pipeline argv, CopyBody (body a), FinishPipeline,
            BasicAck 1 (delivery_tag (frame a)) 0]
       (if ack_res a < 0 then ([Die ''basic.ack''], Exits 1)
        else after [MaybeReleaseBuffers] (dispatch no_ack count argv (i + 1) rest))
    \<and> filter is_ack (fst (iteration no_ack argv a)) = [BasicAck 1 (delivery_tag (frame a)) 0]"
proof -
  have it: "iteration no_ack argv a =
      after [SimpleWaitFrame, Pipeline argv, CopyBody (body a), FinishPipeline,
             BasicAck 1 (delivery_tag (frame a)) 0]
        (if ack_res a < 0 then ([Die ''basic.ack''], Exits 1)
         else ([MaybeReleaseBuffers], Returns ()))"
    using assms by (simp add: iteration_deliver after_after)
  then have "filter is_ack (fst (iteration no_ack argv a))
      = [BasicAck 1 (delivery_tag (frame a)) 0]"
    by (simp add: after_def)
  moreover from it assms(1) have "dispatch no_ack count argv i (a # rest) =
     after [SimpleWaitFrame, Pipeline argv, CopyBody (body a), FinishPipeline,
            BasicAck 1 (delivery_tag (frame a)) 0]
       (if ack_res a < 0 then ([Die ''basic.ack''], Exits 1)
        else after [MaybeReleaseBuffers] (dispatch no_ack count argv (i + 1) rest))"
    by (simp add: after_def bind_run_simps)
  ultimately show ?thesis
    by (intro conjI)
qed

theorem ack_after_successful_pipeline_witness:
  "dispatch 0 (-1) cat 0 [delivery 42 [0, 0]] =
     ([SimpleWaitFrame, Pipeline cat, CopyBody [0x68, 0x69], FinishPipeline, BasicAck 1 42 0,
       MaybeReleaseBuffers, SimpleWaitFrame], Blocks)"
  using ack_after_successful_pipeline [of "-1" 0 "delivery 42 [0, 0]" 0 cat "[]"]
  by (simp add: delivery_def deliver_frame_def after_def)

text \<open>
  C2. Under the same conditions, but with a pipeline of which some stage exits with a
  non-zero status, and for either value of \<open>no_ack\<close>: the calls made for the delivery
  are the wait, the spawn, the copy of the body, the wait for the pipeline and the
  release of the buffers. No \<^verbatim>\<open>basic.ack\<close> is among them, the iteration returns to the
  loop (the process does not exit), and the loop goes on with \<open>i + 1\<close> and the remaining
  arrivals.
\<close>

theorem no_ack_after_failed_pipeline:
  assumes "count < 0 \<or> i < count"
    and "0 \<le> wait_res a"
    and "frame_type (frame a) = AMQP_FRAME_METHOD"
    and "method_id (frame a) = AMQP_BASIC_DELIVER_METHOD"
    and "spawn_ok a" and "body_ok a"
    and "\<not> list_all (\<lambda>s. s = 0) (stage_status a)"
  shows "dispatch no_ack count argv i (a # rest) =
     after [SimpleWaitFrame, Pipeline argv, CopyBody (body a), FinishPipeline,
            MaybeReleaseBuffers]
       (dispatch no_ack count argv (i + 1) rest)
    \<and> filter is_ack (fst (iteration no_ack argv a)) = []
    \<and> snd (iteration no_ack argv a) = Returns ()"
proof -
  have it: "iteration no_ack argv a =
      ([SimpleWaitFrame, Pipeline argv, CopyBody (body a), FinishPipeline,
        MaybeReleaseBuffers], Returns ())"
    using assms by (simp add: iteration_deliver after_def)
  with assms(1) have "dispatch no_ack count argv i (a # rest) =
     after [SimpleWaitFrame, Pipeline argv, CopyBody (body a), FinishPipeline,
            MaybeReleaseBuffers]
       (dispatch no_ack count argv (i + 1) rest)"
    by (simp add: bind_run_simps)
  with it show ?thesis
    by simp
qed

theorem no_ack_after_failed_pipeline_witness:
  "dispatch 0 2 cat 0 [delivery 42 [0, 1], delivery 43 [0]] =
     ([SimpleWaitFrame, Pipeline cat, CopyBody [0x68, 0x69], FinishPipeline, MaybeReleaseBuffers,
       SimpleWaitFrame, Pipeline cat, CopyBody [0x68, 0x69], FinishPipeline, BasicAck 1 43 0,
       MaybeReleaseBuffers], Returns ())"
  using no_ack_after_failed_pipeline [of 2 0 "delivery 42 [0, 1]" 0 cat "[delivery 43 [0]]"]
  by (simp add: delivery_def deliver_frame_def after_def iteration_deliver bind_run_simps skip_def)

lemma fst_bind_run:
  "fst (bind_run m f) = fst m @ (case snd m of Returns a \<Rightarrow> fst (f a) | _ \<Rightarrow> [])"
  by (cases m; cases "snd m") (auto simp: bind_run_def split: prod.split)

lemma snd_bind_run:
  "snd (bind_run m f) =
     (case snd m of Returns a \<Rightarrow> snd (f a) | Exits n \<Rightarrow> Exits n | Blocks \<Rightarrow> Blocks
      | Faults \<Rightarrow> Faults)"
  by (cases m; cases "snd m") (auto simp: bind_run_def split: prod.split)

lemma iteration_cases:
  "iteration no_ack argv a =
    (if wait_res a < 0 then ([SimpleWaitFrame, Die ''waiting for header frame''], Exits 1)
     else if frame_type (frame a) \<noteq> AMQP_FRAME_METHOD
          \<or> method_id (frame a) \<noteq> AMQP_BASIC_DELIVER_METHOD
     then ([SimpleWaitFrame], Returns ())
     else after [SimpleWaitFrame]
     (if \<not> spawn_ok a then ([Pipeline argv, Die ''pipeline''], Exits 1)
      else after [Pipeline argv]
       (if \<not> body_ok a then ([Die ''copy_body''], Exits 1)
        else after [CopyBody (body a), FinishPipeline]
          (if list_all (\<lambda>s. s = 0) (stage_status a) \<and> no_ack = 0
           then after [BasicAck 1 (delivery_tag (frame a)) 0]
                  (if ack_res a < 0 then ([Die ''basic.ack''], Exits 1)
                   else ([MaybeReleaseBuffers], Returns ()))
           else ([MaybeReleaseBuffers], Returns ())))))"
proof (cases "wait_res a < 0")
  case True
  then show ?thesis by (simp add: iteration_wait_error)
next
  case False
  then have w: "0 \<le> wait_res a" by simp
  show ?thesis
  proof (cases "frame_type (frame a) \<noteq> AMQP_FRAME_METHOD
      \<or> method_id (frame a) \<noteq> AMQP_BASIC_DELIVER_METHOD")
    case True
    with w False show ?thesis by (simp add: iteration_discard)
  next
    case no: False
    with w False show ?thesis by (simp add: iteration_deliver)
  qed
qed

lemma iteration_waits: "filter is_wait (fst (iteration no_ack argv a)) = [SimpleWaitFrame]"
  by (simp add: iteration_cases after_def)

lemma iteration_pipelines: "length (filter is_pipeline (fst (iteration no_ack argv a))) \<le> 1"
  by (simp add: iteration_cases after_def)

lemma iteration_no_qos: "filter is_qos (fst (iteration no_ack argv a)) = []"
  by (simp add: iteration_cases after_def)

lemma dispatch_no_qos: "filter is_qos (fst (dispatch no_ack count argv i as)) = []"
  by (induction as arbitrary: i)
    (simp_all add: skip_def fst_bind_run iteration_no_qos split: outcome.split)

lemma dispatch_pipelines_le:
  "0 \<le> count \<Longrightarrow>
   length (filter is_pipeline (fst (dispatch no_ack count argv i as))) \<le> nat (count - i)"
proof (induction as arbitrary: i)
  case Nil
  then show ?case by (simp add: skip_def)
next
  case (Cons a as)
  show ?case
  proof (cases "i < count")
    case True
    have "length (filter is_pipeline (fst (dispatch no_ack count argv (i + 1) as)))
        \<le> nat (count - (i + 1))"
      using Cons.prems by (rule Cons.IH)
    moreover from True have "nat (count - i) = Suc (nat (count - (i + 1)))"
      by simp
    ultimately show ?thesis
      using True iteration_pipelines [of no_ack argv a]
      by (simp add: fst_bind_run split: outcome.split)
  next
    case False
    with Cons.prems show ?thesis by (simp add: skip_def)
  qed
qed

lemma dispatch_unbounded:
  "count < 0 \<Longrightarrow> snd (dispatch no_ack count argv i as) \<noteq> Returns ()"
proof (induction as arbitrary: i)
  case Nil
  then show ?case by simp
next
  case (Cons a as)
  from Cons.prems have "snd (dispatch no_ack count argv (i + 1) as) \<noteq> Returns ()"
    by (rule Cons.IH)
  with Cons.prems show ?case
    by (simp add: snd_bind_run split: outcome.split)
qed

lemma dispatch_unbounded_all:
  "count < 0 \<Longrightarrow> list_all (\<lambda>a. snd (iteration no_ack argv a) = Returns ()) as \<Longrightarrow>
   snd (dispatch no_ack count argv i as) = Blocks
   \<and> length (filter is_wait (fst (dispatch no_ack count argv i as))) = length as + 1"
proof (induction as arbitrary: i)
  case Nil
  then show ?case by simp
next
  case (Cons a as)
  from Cons.prems have "snd (dispatch no_ack count argv (i + 1) as) = Blocks
      \<and> length (filter is_wait (fst (dispatch no_ack count argv (i + 1) as))) = length as + 1"
    by (intro Cons.IH) simp_all
  with Cons.prems show ?case
    by (simp add: snd_bind_run fst_bind_run iteration_waits)
qed

lemma do_consume_cases:
  "do_consume conn q no_ack count argv =
     (let consume = after [BasicConsume 1 q [] 0 no_ack 0]
            (if consume_ok conn then dispatch no_ack count argv 0 (arrivals conn)
             else ([Die ''basic.consume''], Exits 1))
      in if 0 < count \<and> count \<le> 65535
         then after [BasicQos 1 0 (word_of_int count) 0]
                (if qos_ok conn then consume else ([Die ''basic.qos''], Exits 1))
         else consume)"
  by (simp add: do_consume_def amqp_basic_qos_def amqp_basic_consume_def die_rpc_def skip_def
      bind_run_simps after_def Let_def)

lemma stringify_bytes_Some:
  "\<exists>sq. stringify_bytes junk bs = Some sq \<and> c_str sq = escaped_all bs"
  using c_str_stringify_bytes [of junk bs] by (cases "stringify_bytes junk bs") auto

lemma print_queue_name:
  "(case stringify_bytes junk bs of
      None \<Rightarrow> ([], Faults)
    | Some sq \<Rightarrow> ([Fprintf_stderr fmt [c_str sq]], Returns r))
   = ([Fprintf_stderr fmt [escaped_all bs]], Returns r)"
  using stringify_bytes_Some [of junk bs] by auto

lemma setup_queue_cases:
  "setup_queue conn queue exchange routing_key declare =
     (if exchange = None \<and> routing_key \<noteq> None
      then ([Fprintf_stderr
              ''--routing-key option requires an exchange name to be provided with --exchange\<newline>''
              []], Exits 1)
      else if queue = None \<or> exchange \<noteq> None \<or> declare \<noteq> 0
      then after [QueueDeclare 1 (cstring_bytes queue) 0 0 1 1]
        (case declare_reply conn of
           None \<Rightarrow> ([Die ''queue.declare''], Exits 1)
         | Some res_queue \<Rightarrow>
             after (if queue = None
                    then [Fprintf_stderr ''Server provided queue name: %s\<newline>''
                            [escaped_all res_queue]]
                    else [])
               (let queue_bytes = (if queue = None then res_queue else cstring_bytes queue) in
                case exchange of
                  None \<Rightarrow> ([], Returns queue_bytes)
                | Some eb \<Rightarrow>
                    after [QueueBind 1 queue_bytes eb (cstring_bytes routing_key)]
                      (if bind_ok conn then ([], Returns queue_bytes)
                       else ([Die ''queue.bind''], Exits 1))))
      else ([], Returns (cstring_bytes queue)))"
  by (simp add: setup_queue_def amqp_queue_declare_def amqp_queue_bind_def die_rpc_def skip_def
      bind_run_simps after_def print_queue_name Let_def split: option.split)

lemma main_cases:
  "main opts conn =
     (if cmd_argv opts = None \<or> cmd_argv opts = Some [] then usage_error
      else if \<not> connect_ok conn then ([MakeConnection, Die ''opening connection''], Exits 1)
      else after [MakeConnection]
        (bind_run (setup_queue conn (opt_queue opts) (opt_exchange opts) (opt_routing_key opts)
                     (opt_declare opts)) (\<lambda>queue_bytes.
         bind_run (do_consume conn queue_bytes (opt_no_ack opts) (opt_count opts)
                     (the (cmd_argv opts))) (\<lambda>_. ([CloseConnection], Exits 0)))))"
  by (simp add: main_def make_connection_def close_connection_def bind_run_simps after_def
      split: option.split list.split)

lemma uint_prefetch_count:
  "0 \<le> count \<Longrightarrow> count \<le> 65535 \<Longrightarrow> uint (word_of_int count :: 16 word) = count"
  by (simp add: unsigned_of_int take_bit_int_eq_self)

lemma setup_queue_events:
  "filter (\<lambda>e. is_qos e \<or> is_wait e \<or> is_pipeline e \<or> is_ack e)
     (fst (setup_queue conn queue exchange routing_key declare)) = []"
  by (simp add: setup_queue_cases after_def Let_def split: option.split)

lemma do_consume_zero:
  "do_consume conn q no_ack 0 argv =
     (if consume_ok conn then ([BasicConsume 1 q [] 0 no_ack 0], Returns ())
      else ([BasicConsume 1 q [] 0 no_ack 0, Die ''basic.consume''], Exits 1))"
  by (cases "arrivals conn") (simp_all add: do_consume_cases after_def skip_def)

text \<open>
  C9. With \<open>count = 0\<close>, \<^verbatim>\<open>do_consume\<close> issues \<^verbatim>\<open>basic.consume\<close> and nothing else: it
  returns at once when the broker accepts the request (and dies when it does not). For
  \<open>main\<close>: when a command is given, the connection is made, \<^verbatim>\<open>setup_queue\<close> returns
  and the broker accepts \<^verbatim>\<open>basic.consume\<close>, the run is the connection, the calls
  of the setup, the consume request and the close of the connection, and the process
  exits with status 0. Whatever happens, a run with \<open>count = 0\<close> contains no QoS call,
  no wait for a frame, no spawned pipeline and no acknowledgment.
\<close>

theorem zero_count_run:
  "do_consume conn q no_ack 0 argv =
     (if consume_ok conn then ([BasicConsume 1 q [] 0 no_ack 0], Returns ())
      else ([BasicConsume 1 q [] 0 no_ack 0, Die ''basic.consume''], Exits 1))
   \<and> (opt_count opts = 0 \<and> cmd_argv opts = Some (c # cs) \<and> connect_ok conn
        \<and> setup_queue conn (opt_queue opts) (opt_exchange opts) (opt_routing_key opts)
             (opt_declare opts) = (es, Returns qb)
        \<and> consume_ok conn \<longrightarrow>
        main opts conn =
          (MakeConnection # es @ [BasicConsume 1 qb [] 0 (opt_no_ack opts) 0, CloseConnection],
           Exits 0))
   \<and> (opt_count opts = 0 \<longrightarrow>
        filter (\<lambda>e. is_qos e \<or> is_wait e \<or> is_pipeline e \<or> is_ack e) (fst (main opts conn))
          = [])"
proof (intro conjI impI)
  show "do_consume conn q no_ack 0 argv =
     (if consume_ok conn then ([BasicConsume 1 q [] 0 no_ack 0], Returns ())
      else ([BasicConsume 1 q [] 0 no_ack 0, Die ''basic.consume''], Exits 1))"
    by (rule do_consume_zero)
next
  assume "opt_count opts = 0 \<and> cmd_argv opts = Some (c # cs) \<and> connect_ok conn
        \<and> setup_queue conn (opt_queue opts) (opt_exchange opts) (opt_routing_key opts)
             (opt_declare opts) = (es, Returns qb)
        \<and> consume_ok conn"
  then show "main opts conn =
          (MakeConnection # es @ [BasicConsume 1 qb [] 0 (opt_no_ack opts) 0, CloseConnection],
           Exits 0)"
    by (simp add: main_cases do_consume_zero bind_run_simps after_def)
next
  assume zero: "opt_count opts = 0"
  let ?P = "\<lambda>e. is_qos e \<or> is_wait e \<or> is_pipeline e \<or> is_ack e"
  have "filter ?P (fst (bind_run (do_consume conn qb' (opt_no_ack opts) 0 argv')
      (\<lambda>_. ([CloseConnection], Exits 0)))) = []" for qb' argv'
    by (simp add: do_consume_zero bind_run_simps after_def)
  with zero show "filter ?P (fst (main opts conn)) = []"
    by (simp add: main_cases usage_error_def fst_after fst_bind_run setup_queue_events
        split: outcome.split)
qed

theorem zero_count_run_witness:
  "main (plain_options 0) (willing_broker [delivery 7 [0]]) =
     ([MakeConnection, BasicConsume 1 [0x71] [] 0 0 0, CloseConnection], Exits 0)"
  using zero_count_run [of "willing_broker [delivery 7 [0]]" "[]" 0 cat "plain_options 0"
      "[0x63, 0x61, 0x74]" "[]" "[]" "[0x71]"]
  by (simp add: plain_options_def willing_broker_def cat_def setup_queue_cases cstring_bytes_def)

text \<open>
  C8 at a concrete run: \<^verbatim>\<open>--count 1\<close>, and the broker sends a \<^verbatim>\<open>channel.flow\<close> method
  frame before a delivery. The frame is discarded by \<^verbatim>\<open>continue\<close>, which still runs the
  \<^verbatim>\<open>i++\<close> of the \<^verbatim>\<open>for\<close> statement: the loop ends without waiting for the delivery.
\<close>

theorem discarded_frame_uses_up_count:
  "do_consume (willing_broker [channel_flow, delivery 7 [0]]) [0x71] 0 1 cat =
     ([BasicQos 1 0 1 0, BasicConsume 1 [0x71] [] 0 0 0, SimpleWaitFrame], Returns ())"
  by (simp add: do_consume_cases willing_broker_def channel_flow_def iteration_cases
      AMQP_BASIC_DELIVER_METHOD_def after_def bind_run_simps skip_def)

text \<open>
  C3, as stated, fails: \<open>count = 0\<close> is outside \<open>1..65535\<close>, and the loop does not run
  unbounded. It ends at once, with a delivery waiting, and \<^verbatim>\<open>do_consume\<close> returns.
\<close>

theorem zero_count_is_bounded:
  "do_consume (willing_broker [delivery 7 [0]]) [0x71] 0 0 cat =
     ([BasicConsume 1 [0x71] [] 0 0 0], Returns ())"
  by (simp add: do_consume_zero willing_broker_def)

text \<open>
  C3, amended. For \<open>1 \<le> count \<le> 65535\<close> the first call of \<^verbatim>\<open>do_consume\<close> is the QoS
  request with prefetch count \<open>count\<close> (the conversion to 16 bits keeps the value), it is
  the only QoS request, the consume request follows it when the broker accepts it, and
  at most \<open>count\<close> deliveries are processed (pipelines spawned). For every other
  \<open>count\<close> no QoS request is made. When \<open>count\<close> is negative the loop is unbounded:
  \<^verbatim>\<open>do_consume\<close> never returns, and when no arrival is fatal every arrival is waited for
  and the process ends up waiting for one more. So it is when \<^verbatim>\<open>--count\<close> is not given and
  \<open>count\<close> keeps its initial value: no QoS request, and no return. For every
  \<open>count \<ge> 0\<close>, zero and the values above 65535 included, at most \<open>count\<close> deliveries
  are processed.
\<close>

theorem qos_and_loop_bound:
  "(1 \<le> count \<and> count \<le> 65535 \<longrightarrow>
      (\<exists>rest. fst (do_consume conn q no_ack count argv)
           = BasicQos 1 0 (word_of_int count) 0 # rest
         \<and> filter is_qos rest = []
         \<and> (qos_ok conn \<longrightarrow> hd rest = BasicConsume 1 q [] 0 no_ack 0))
      \<and> uint (word_of_int count :: 16 word) = count
      \<and> length (filter is_pipeline (fst (do_consume conn q no_ack count argv))) \<le> nat count)
   \<and> (\<not> (1 \<le> count \<and> count \<le> 65535) \<longrightarrow>
        filter is_qos (fst (do_consume conn q no_ack count argv)) = [])
   \<and> (count < 0 \<longrightarrow>
        snd (do_consume conn q no_ack count argv) \<noteq> Returns ()
        \<and> (consume_ok conn
             \<and> list_all (\<lambda>a. snd (iteration no_ack argv a) = Returns ()) (arrivals conn) \<longrightarrow>
           snd (do_consume conn q no_ack count argv) = Blocks
           \<and> length (filter is_wait (fst (do_consume conn q no_ack count argv)))
               = length (arrivals conn) + 1))
   \<and> filter is_qos (fst (do_consume conn q no_ack unset_count argv)) = []
   \<and> snd (do_consume conn q no_ack unset_count argv) \<noteq> Returns ()
   \<and> (0 \<le> count \<longrightarrow>
        length (filter is_pipeline (fst (do_consume conn q no_ack count argv))) \<le> nat count)"
proof -
  let ?loop = "dispatch no_ack count argv 0 (arrivals conn)"
  have noq: "filter is_qos (fst ?loop) = []"
    by (rule dispatch_no_qos)
  have pl: "0 \<le> count \<Longrightarrow> length (filter is_pipeline (fst ?loop)) \<le> nat count"
    using dispatch_pipelines_le [of count no_ack argv 0 "arrivals conn"] by simp
  have nr: "count < 0 \<Longrightarrow> snd ?loop \<noteq> Returns ()"
    by (rule dispatch_unbounded)
  have al: "count < 0 \<Longrightarrow>
      list_all (\<lambda>a. snd (iteration no_ack argv a) = Returns ()) (arrivals conn) \<Longrightarrow>
      snd ?loop = Blocks \<and> length (filter is_wait (fst ?loop)) = length (arrivals conn) + 1"
    by (rule dispatch_unbounded_all)
  have in_range: "1 \<le> count \<and> count \<le> 65535 \<longrightarrow>
      (\<exists>rest. fst (do_consume conn q no_ack count argv)
           = BasicQos 1 0 (word_of_int count) 0 # rest
         \<and> filter is_qos rest = []
         \<and> (qos_ok conn \<longrightarrow> hd rest = BasicConsume 1 q [] 0 no_ack 0))
      \<and> uint (word_of_int count :: 16 word) = count
      \<and> length (filter is_pipeline (fst (do_consume conn q no_ack count argv))) \<le> nat count"
    using noq pl by (simp add: do_consume_cases after_def Let_def uint_prefetch_count)
  have out_of_range: "\<not> (1 \<le> count \<and> count \<le> 65535) \<longrightarrow>
        filter is_qos (fst (do_consume conn q no_ack count argv)) = []"
    using noq by (auto simp: do_consume_cases after_def Let_def)
  have negative: "count < 0 \<longrightarrow>
        snd (do_consume conn q no_ack count argv) \<noteq> Returns ()
        \<and> (consume_ok conn
             \<and> list_all (\<lambda>a. snd (iteration no_ack argv a) = Returns ()) (arrivals conn) \<longrightarrow>
           snd (do_consume conn q no_ack count argv) = Blocks
           \<and> length (filter is_wait (fst (do_consume conn q no_ack count argv)))
               = length (arrivals conn) + 1)"
    using nr al by (simp add: do_consume_cases after_def Let_def)
  have unset_qos: "filter is_qos (fst (do_consume conn q no_ack unset_count argv)) = []"
    using dispatch_no_qos [of no_ack unset_count argv 0 "arrivals conn"]
    by (simp add: do_consume_cases after_def Let_def unset_count_def)
  have "snd (dispatch no_ack unset_count argv 0 (arrivals conn)) \<noteq> Returns ()"
    by (rule dispatch_unbounded) (simp add: unset_count_def)
  then have unset_loop: "snd (do_consume conn q no_ack unset_count argv) \<noteq> Returns ()"
    by (simp add: do_consume_cases after_def Let_def unset_count_def)
  have bounded: "0 \<le> count \<longrightarrow>
        length (filter is_pipeline (fst (do_consume conn q no_ack count argv))) \<le> nat count"
    using pl by (simp add: do_consume_cases after_def Let_def)
  from in_range out_of_range negative unset_qos unset_loop bounded show ?thesis
    by (intro conjI)
qed

theorem qos_and_loop_bound_witness:
  "fst (do_consume (willing_broker [delivery 7 [0], delivery 8 [0]]) [0x71] 0 1 cat) =
     [BasicQos 1 0 1 0, BasicConsume 1 [0x71] [] 0 0 0, SimpleWaitFrame, Pipeline cat,
      CopyBody [0x68, 0x69], FinishPipeline, BasicAck 1 7 0, MaybeReleaseBuffers]
   \<and> uint (word_of_int 1 :: 16 word) = 1
   \<and> length (filter is_pipeline
        (fst (do_consume (willing_broker [delivery 7 [0], delivery 8 [0]]) [0x71] 0 1 cat))) \<le> 1
   \<and> snd (do_consume (willing_broker [delivery 7 [0]]) [0x71] 0 (- 1) cat) = Blocks"
  using qos_and_loop_bound [of 1 "willing_broker [delivery 7 [0], delivery 8 [0]]" "[0x71]" 0 cat]
    qos_and_loop_bound [of "- 1" "willing_broker [delivery 7 [0]]" "[0x71]" 0 cat]
  by (simp add: do_consume_cases willing_broker_def delivery_def deliver_frame_def
      iteration_cases after_def bind_run_simps skip_def)

text \<open>
  C4, as stated, fails: \<open>main\<close> calls \<^verbatim>\<open>make_connection\<close> before \<^verbatim>\<open>setup_queue\<close>, where
  the check is made, so the connection to the broker is made before the error is
  reported.
\<close>

theorem connection_precedes_configuration_check:
  "main misconfigured (willing_broker []) =
     ([MakeConnection,
       Fprintf_stderr
         ''--routing-key option requires an exchange name to be provided with --exchange\<newline>''
         []], Exits 1)"
  by (simp add: main_cases misconfigured_def willing_broker_def cat_def setup_queue_cases
      bind_run_simps after_def)

text \<open>
  C4, amended. With a routing key and no exchange the process always exits with status
  1, and it sends no request and waits for no frame. When a command was given, it first
  makes the connection; if that succeeds it reports the configuration error and exits,
  without closing the connection. (Without a command it reports the missing command, and
  a failure to connect is reported as such.)
\<close>

theorem routing_key_without_exchange:
  assumes "opt_exchange opts = None" and "opt_routing_key opts \<noteq> None"
  shows "main opts conn =
      (if cmd_argv opts = None \<or> cmd_argv opts = Some [] then usage_error
       else if \<not> connect_ok conn then ([MakeConnection, Die ''opening connection''], Exits 1)
       else ([MakeConnection,
              Fprintf_stderr
                ''--routing-key option requires an exchange name to be provided with --exchange\<newline>''
                []], Exits 1))
    \<and> snd (main opts conn) = Exits 1
    \<and> filter is_request (fst (main opts conn)) = []
    \<and> CloseConnection \<notin> set (fst (main opts conn))"
  using assms
  by (simp add: main_cases setup_queue_cases bind_run_simps after_def usage_error_def)

theorem routing_key_without_exchange_witness:
  "opt_exchange misconfigured = None \<and> opt_routing_key misconfigured \<noteq> None
   \<and> snd (main misconfigured (willing_broker [delivery 7 [0]])) = Exits 1
   \<and> filter is_request (fst (main misconfigured (willing_broker [delivery 7 [0]]))) = []"
proof -
  have a: "opt_exchange misconfigured = None" and b: "opt_routing_key misconfigured \<noteq> None"
    by (simp_all add: misconfigured_def)
  from routing_key_without_exchange [OF a b, of "willing_broker [delivery 7 [0]]"]
  have "snd (main misconfigured (willing_broker [delivery 7 [0]])) = Exits 1
      \<and> filter is_request (fst (main misconfigured (willing_broker [delivery 7 [0]]))) = []"
    by blast
  with a b show ?thesis by blast
qed

text \<open>
  C7. The decision to declare is taken once the check of the routing key has passed
  (an exchange is given, or no routing key is). From there \<^verbatim>\<open>setup_queue\<close> issues a
  \<^verbatim>\<open>queue.declare\<close> if and only if no queue name was given, or an exchange was given, or
  the declare flag is set. It is then the first call, the only declare, on channel 1,
  not passive, not durable, exclusive and auto-delete. Otherwise \<^verbatim>\<open>setup_queue\<close> makes
  no call at all and returns the given name as the queue to consume from.
\<close>

theorem declare_iff:
  assumes "exchange \<noteq> None \<or> routing_key = None"
  shows "(filter is_declare (fst (setup_queue conn queue exchange routing_key declare)) \<noteq> []
          \<longleftrightarrow> queue = None \<or> exchange \<noteq> None \<or> declare \<noteq> 0)
    \<and> (queue = None \<or> exchange \<noteq> None \<or> declare \<noteq> 0 \<longrightarrow>
         filter is_declare (fst (setup_queue conn queue exchange routing_key declare))
           = [QueueDeclare 1 (cstring_bytes queue) 0 0 1 1]
         \<and> hd (fst (setup_queue conn queue exchange routing_key declare))
           = QueueDeclare 1 (cstring_bytes queue) 0 0 1 1)
    \<and> (queue = Some name \<and> exchange = None \<and> declare = 0 \<longrightarrow>
         setup_queue conn queue exchange routing_key declare = ([], Returns name))"
  using assms
  by (auto simp: setup_queue_cases after_def Let_def cstring_bytes_def split: option.split)

theorem declare_iff_witness:
  "setup_queue (willing_broker []) None None None 0 =
     ([QueueDeclare 1 [] 0 0 1 1,
       Fprintf_stderr ''Server provided queue name: %s\<newline>''
         [[0x61, 0x6D, 0x71, 0x2E, 0x5C, 0x30, 0x30, 0x31]]],
      Returns [0x61, 0x6D, 0x71, 0x2E, 0x01])
   \<and> setup_queue (willing_broker []) (Some [0x71]) None None 0 = ([], Returns [0x71])"
  using declare_iff [of None None "willing_broker []" None 0]
    declare_iff [of None None "willing_broker []" "Some [0x71]" 0]
  by (simp add: setup_queue_cases willing_broker_def cstring_bytes_def after_def
      escaped_all_simps escaped_def is_literal_unat)

end
